theory Spec2Isabelle
  imports Main "HOL-Library.Word" "HOL-Library.AList"
begin

section \<open>The collaborators of the device grabber\<close>

text \<open>
  The class \<^verbatim>\<open>device_grabber\<close> of \<^verbatim>\<open>src/core/grabber/include/device_grabber.hpp\<close>
  is embedded as a record of its members and one state-passing function per method.
  The members lose the trailing underscore of the source (\<^verbatim>\<open>grabbed_\<close> is the
  field \<open>grabbed\<close>), everything else keeps its name.

  Every block that the source hands to the main dispatch queue runs to its end before
  the next one starts, so a method is modelled by the effect of its block on the state.
\<close>

type_synonym IOHIDDeviceRef = "64 word"
type_synonym IOReturn = "32 word"
type_synonym key_code = "32 word"
type_synonym size_t = "64 word"
type_synonym time_t = int

text \<open>A device reference is a pointer; the null pointer is the address 0.\<close>

definition null_device :: IOHIDDeviceRef where
  "null_device = 0"

definition kIOReturnSuccess :: IOReturn where
  "kIOReturnSuccess = 0"

datatype led_state = led_state_on | led_state_off

subsection \<open>The per-device handle\<close>

text \<open>
  What the operating system reports about a device. Every accessor of the handle returns
  an optional value, except the registry entry id.

  Modelled from the spec: the handle's \<^verbatim>\<open>grab(callback) -> Result\<close> and
  \<^verbatim>\<open>ungrab() -> Result\<close> can fail ("a grab/ungrab call on a single device fails").
  \<open>seize_ok\<close> and \<open>release_ok\<close> are the answers of the operating system to a request
  to seize the device and to release it; they can change at any time.
\<close>

record device_properties =
  manufacturer :: "string option"
  product :: "string option"
  vendor_id :: "int option"
  product_id :: "int option"
  location_id :: "int option"
  serial_number :: "string option"
  registry_entry_id :: "64 word"
  seize_ok :: bool
  release_ok :: bool

datatype capability = capability_closed | capability_observed | capability_grabbed

text \<open>
  The callback given to a handle: \<^verbatim>\<open>observe\<close> of the grabber passes a default
  constructed (empty) callback, \<^verbatim>\<open>grab\<close> passes the bound \<^verbatim>\<open>value_callback\<close>.
\<close>

datatype callback = empty_callback | bound_value_callback

datatype hid_call =
    call_observe callback
  | call_unobserve
  | call_grab callback
  | call_ungrab
  | call_set_caps_lock_led_state led_state
  | call_clear_changed_keys
  | call_clear_pressed_keys

text \<open>
  Modelled from the spec: the class \<^verbatim>\<open>human_interface_device\<close>
  (\<^verbatim>\<open>human_interface_device.hpp\<close> is not part of the sources at hand). The handle
  "exposes grab/ungrab, LED-set, pressed-key-count, identity metadata", it has the
  capability states observed and grabbed, and buffered changed-keys and pressed-keys
  state. The model adds the state in which the handle is neither observed nor grabbed,
  and the list of the calls the grabber has made on the handle, oldest first. A seize
  that the operating system refuses leaves the capability state of the handle as it
  was, and so does a release that it refuses; the grabber does not look at the result
  of either call.
\<close>

record human_interface_device =
  properties :: device_properties
  capability :: capability
  pressed_keys :: "64 word list"
  changed_keys :: "(64 word \<times> bool) list"
  caps_lock_led :: "led_state option"
  calls :: "hid_call list"

definition make_human_interface_device :: "device_properties \<Rightarrow> human_interface_device" where
  "make_human_interface_device p =
     \<lparr>properties = p, capability = capability_closed, pressed_keys = [],
      changed_keys = [], caps_lock_led = None, calls = []\<rparr>"

definition get_manufacturer :: "human_interface_device \<Rightarrow> string option" where
  "get_manufacturer hid = manufacturer (properties hid)"

definition get_product :: "human_interface_device \<Rightarrow> string option" where
  "get_product hid = product (properties hid)"

definition get_vendor_id :: "human_interface_device \<Rightarrow> int option" where
  "get_vendor_id hid = vendor_id (properties hid)"

definition get_product_id :: "human_interface_device \<Rightarrow> int option" where
  "get_product_id hid = product_id (properties hid)"

definition get_location_id :: "human_interface_device \<Rightarrow> int option" where
  "get_location_id hid = location_id (properties hid)"

definition get_serial_number :: "human_interface_device \<Rightarrow> string option" where
  "get_serial_number hid = serial_number (properties hid)"

definition get_registry_entry_id :: "human_interface_device \<Rightarrow> 64 word" where
  "get_registry_entry_id hid = registry_entry_id (properties hid)"

definition get_pressed_keys_count :: "human_interface_device \<Rightarrow> size_t" where
  "get_pressed_keys_count hid = of_nat (length (pressed_keys hid))"

definition hid_observe :: "callback \<Rightarrow> human_interface_device \<Rightarrow> human_interface_device" where
  "hid_observe cb hid =
     hid\<lparr>capability := capability_observed, calls := calls hid @ [call_observe cb]\<rparr>"

definition hid_unobserve :: "human_interface_device \<Rightarrow> human_interface_device" where
  "hid_unobserve hid =
     hid\<lparr>capability :=
           (if capability hid = capability_observed then capability_closed
            else capability hid),
         calls := calls hid @ [call_unobserve]\<rparr>"

definition hid_grab :: "callback \<Rightarrow> human_interface_device \<Rightarrow> human_interface_device" where
  "hid_grab cb hid =
     hid\<lparr>capability :=
           (if seize_ok (properties hid) then capability_grabbed else capability hid),
         calls := calls hid @ [call_grab cb]\<rparr>"

definition hid_ungrab :: "human_interface_device \<Rightarrow> human_interface_device" where
  "hid_ungrab hid =
     hid\<lparr>capability :=
           (if capability hid = capability_grabbed \<and> release_ok (properties hid)
            then capability_closed
            else capability hid),
         calls := calls hid @ [call_ungrab]\<rparr>"

definition hid_set_caps_lock_led_state ::
  "led_state \<Rightarrow> human_interface_device \<Rightarrow> human_interface_device" where
  "hid_set_caps_lock_led_state st hid =
     hid\<lparr>caps_lock_led := Some st, calls := calls hid @ [call_set_caps_lock_led_state st]\<rparr>"

definition clear_changed_keys :: "human_interface_device \<Rightarrow> human_interface_device" where
  "clear_changed_keys hid =
     hid\<lparr>changed_keys := [], calls := calls hid @ [call_clear_changed_keys]\<rparr>"

definition clear_pressed_keys :: "human_interface_device \<Rightarrow> human_interface_device" where
  "clear_pressed_keys hid =
     hid\<lparr>pressed_keys := [], calls := calls hid @ [call_clear_pressed_keys]\<rparr>"

subsection \<open>The remapping engine, the caps-lock facility, the session client, the logger\<close>

text \<open>
  Modelled from the spec: \<^verbatim>\<open>manipulator::event_manipulator\<close> (not part of the sources at
  hand), of which the grabber uses \<^verbatim>\<open>is_ready() -> bool\<close> and
  \<^verbatim>\<open>handle_keyboard_event(device_identity, key_code, pressed) -> void\<close>. The model keeps
  the readiness flag and the list of the events handed over, oldest first.
\<close>

record event_manipulator =
  ready :: bool
  handled_keyboard_events :: "(64 word \<times> key_code \<times> bool) list"

definition is_ready :: "event_manipulator \<Rightarrow> bool" where
  "is_ready em = ready em"

definition handle_keyboard_event ::
  "64 word \<Rightarrow> key_code \<Rightarrow> bool \<Rightarrow> event_manipulator \<Rightarrow> event_manipulator" where
  "handle_keyboard_event device_registry_entry_id kc pressed em =
     em\<lparr>handled_keyboard_events :=
          handled_keyboard_events em @ [(device_registry_entry_id, kc, pressed)]\<rparr>"

text \<open>
  Modelled from the spec: \<^verbatim>\<open>hid_system_client\<close> (not part of the sources at hand), the
  system caps-lock facility with \<^verbatim>\<open>get_caps_lock_state() -> Option<bool>\<close> and
  \<^verbatim>\<open>set_caps_lock_state(bool)\<close>, which forces the hardware state.
\<close>

record hid_system_client =
  caps_lock_state :: "bool option"

definition get_caps_lock_state :: "hid_system_client \<Rightarrow> bool option" where
  "get_caps_lock_state c = caps_lock_state c"

definition set_caps_lock_state :: "bool \<Rightarrow> hid_system_client \<Rightarrow> hid_system_client" where
  "set_caps_lock_state b c = c\<lparr>caps_lock_state := Some b\<rparr>"

text \<open>
  Modelled from the spec: \<^verbatim>\<open>console_user_client\<close> (not part of the sources at hand), the
  session client with \<^verbatim>\<open>connect_ack()\<close> and \<^verbatim>\<open>stop_key_repeat()\<close>: the list of the
  calls received.
\<close>

datatype console_user_call = call_connect_ack | call_stop_key_repeat

type_synonym console_user_client = "console_user_call list"

definition connect_ack :: "console_user_client \<Rightarrow> console_user_client" where
  "connect_ack c = c @ [call_connect_ack]"

definition stop_key_repeat :: "console_user_client \<Rightarrow> console_user_client" where
  "stop_key_repeat c = c @ [call_stop_key_repeat]"

text \<open>
  Modelled from the spec: \<^verbatim>\<open>manipulator::modifier_flag_manager\<close> (not part of the sources
  at hand), "the set of currently-asserted modifier keys", which \<^verbatim>\<open>reset()\<close> empties.
\<close>

type_synonym modifier_flag_manager = "key_code list"

definition reset :: "modifier_flag_manager \<Rightarrow> modifier_flag_manager" where
  "reset m = []"

text \<open>
  The lines written to the logger. The two formatted lines keep the arguments the source
  passes to the format string after \<^verbatim>\<open>__PRETTY_FUNCTION__\<close>, with the defaults for the
  missing optional values; the name of the function is that of the one callback that
  writes the line.
\<close>

datatype log_line =
    log_error string
  | log_warn string
  | log_info string
  | log_matching_device string string int int int string "64 word"
  | log_removal_device int int int

definition value_or :: "'a option \<Rightarrow> 'a \<Rightarrow> 'a" where
  "value_or x d = (case x of None \<Rightarrow> d | Some v \<Rightarrow> v)"

section \<open>The device grabber\<close>

text \<open>
  The registry \<^verbatim>\<open>hids_\<close> is an unordered map from device references to owned handles;
  it is an association list here, and a loop over the map runs over the list. The
  pointer to a handle is never null for an entry of the map, since the only insertion
  stores the result of \<^verbatim>\<open>std::make_unique\<close>.

  A dispatch timer source is known by a number. \<open>dispatch_sources\<close> holds the sources
  that were created and not cancelled, each with the variable
  \<^verbatim>\<open>last_warning_message_time\<close> that the blocks of its \<^verbatim>\<open>grab_devices\<close> call share.
  \<open>grab_timer\<close> is the member \<^verbatim>\<open>grab_timer_\<close>, \<open>None\<close> for the null source.
\<close>

record device_grabber =
  event_manipulator_ref :: event_manipulator
  hid_system_client_member :: hid_system_client
  manager :: bool
  callbacks_registered :: bool
  hids :: "(IOHIDDeviceRef \<times> human_interface_device) list"
  grab_timer :: "nat option"
  grab_retry_count :: size_t
  grabbed :: bool
  modifier_flag_manager_member :: modifier_flag_manager
  simple_modifications :: "(key_code \<times> key_code) list"
  console_user_client_member :: console_user_client
  logger :: "log_line list"
  dispatch_sources :: "(nat \<times> time_t) list"
  next_dispatch_source :: nat

text \<open>
  The constructor. \<open>manager_created\<close> says whether \<^verbatim>\<open>IOHIDManagerCreate\<close> returned a
  manager, \<open>dictionaries_created\<close> whether the matching dictionaries were created; the
  hot-plug callbacks are registered only when both are there. The error line is the
  format string \<^verbatim>\<open>"{0}: failed to IOHIDManagerCreate"\<close> with the name that
  \<^verbatim>\<open>__PRETTY_FUNCTION__\<close> has in the constructor.
\<close>

definition device_grabber_new ::
  "event_manipulator \<Rightarrow> hid_system_client \<Rightarrow> bool \<Rightarrow> bool \<Rightarrow> device_grabber" where
  "device_grabber_new em hsc manager_created dictionaries_created =
     (let s = \<lparr>event_manipulator_ref = em,
               hid_system_client_member = hsc,
               manager = manager_created,
               callbacks_registered = False,
               hids = [],
               grab_timer = None,
               grab_retry_count = 0,
               grabbed = False,
               modifier_flag_manager_member = [],
               simple_modifications = [],
               console_user_client_member = [],
               logger = [],
               dispatch_sources = [],
               next_dispatch_source = 0\<rparr>
      in if \<not> manager_created
         then s\<lparr>logger := logger s @
                 [log_error (''device_grabber::device_grabber(manipulator::event_manipulator &)''
                    @ '': failed to IOHIDManagerCreate'')]\<rparr>
         else if dictionaries_created then s\<lparr>callbacks_registered := True\<rparr>
         else s)"

definition clear_simple_modifications :: "device_grabber \<Rightarrow> device_grabber" where
  "clear_simple_modifications s = s\<lparr>simple_modifications := []\<rparr>"

definition add_simple_modification :: "key_code \<Rightarrow> key_code \<Rightarrow> device_grabber \<Rightarrow> device_grabber" where
  "add_simple_modification from_key_code to_key_code s =
     s\<lparr>simple_modifications := AList.update from_key_code to_key_code (simple_modifications s)\<rparr>"

definition cancel_grab_timer :: "device_grabber \<Rightarrow> device_grabber" where
  "cancel_grab_timer s =
     (case grab_timer s of
        None \<Rightarrow> s
      | Some t \<Rightarrow> s\<lparr>dispatch_sources := AList.delete t (dispatch_sources s),
                    grab_timer := None\<rparr>)"

definition get_all_devices_pressed_keys_count :: "device_grabber \<Rightarrow> size_t" where
  "get_all_devices_pressed_keys_count s =
     fold (\<lambda>it total. total + get_pressed_keys_count (snd it)) (hids s) 0"

text \<open>
  The test of the source on the manufacturer, \<^verbatim>\<open>manufacturer && *manufacturer == "pqrs.org"\<close>,
  which marks the devices that the program itself creates.
\<close>

definition self_originated :: "human_interface_device \<Rightarrow> bool" where
  "self_originated hid = (get_manufacturer hid = Some ''pqrs.org'')"

definition observe :: "human_interface_device \<Rightarrow> human_interface_device" where
  "observe hid = hid_observe empty_callback hid"

definition unobserve :: "human_interface_device \<Rightarrow> human_interface_device" where
  "unobserve hid = hid_unobserve hid"

definition grab :: "device_grabber \<Rightarrow> human_interface_device \<Rightarrow> human_interface_device" where
  "grab s hid =
     (let m = get_manufacturer hid in
      if m \<noteq> None \<and> m = Some ''pqrs.org'' then hid
      else
        let hid1 = unobserve hid;
            hid2 = hid_grab bound_value_callback hid1;
            caps = get_caps_lock_state (hid_system_client_member s)
        in if caps \<noteq> None \<and> caps = Some True
           then hid_set_caps_lock_led_state led_state_on hid2
           else hid_set_caps_lock_led_state led_state_off hid2)"

definition ungrab :: "human_interface_device \<Rightarrow> human_interface_device" where
  "ungrab hid =
     (let m = get_manufacturer hid in
      if m \<noteq> None \<and> m = Some ''pqrs.org'' then hid
      else observe (hid_ungrab hid))"

subsection \<open>grab_devices and the handler of the grab timer\<close>

text \<open>
  \<^verbatim>\<open>grab_devices\<close> reads the clock before it hands its block to the main queue; \<open>now\<close>
  is that reading. The block cancels the timer of an earlier call, creates a source with
  a fresh number and resumes it.
\<close>

definition grab_devices :: "time_t \<Rightarrow> device_grabber \<Rightarrow> device_grabber" where
  "grab_devices now s =
     (let last_warning_message_time = now - 1;
          s1 = cancel_grab_timer s;
          s2 = s1\<lparr>grab_retry_count := 0\<rparr>;
          t = next_dispatch_source s2
      in s2\<lparr>grab_timer := Some t,
            dispatch_sources := dispatch_sources s2 @ [(t, last_warning_message_time)],
            next_dispatch_source := Suc t\<rparr>)"

text \<open>The part of the handler below the comment \<^verbatim>\<open>// grab devices\<close>.\<close>

definition grab_completion :: "device_grabber \<Rightarrow> device_grabber" where
  "grab_completion s =
     (let s1 = s\<lparr>grabbed := True\<rparr>;
          s2 = s1\<lparr>hids :=
                 map (\<lambda>it. (fst it, clear_pressed_keys (clear_changed_keys (grab s1 (snd it)))))
                   (hids s1)\<rparr>;
          s3 = s2\<lparr>modifier_flag_manager_member := reset (modifier_flag_manager_member s2)\<rparr>;
          s4 = s3\<lparr>hid_system_client_member :=
                 set_caps_lock_state False (hid_system_client_member s3)\<rparr>;
          s5 = s4\<lparr>logger := logger s4 @ [log_info ''devices are grabbed'']\<rparr>
      in cancel_grab_timer s5)"

text \<open>
  One run of the event handler of the timer source \<open>t\<close>, when the clock reads \<open>now\<close>.
  A source that was cancelled runs no handler.
\<close>

definition grab_timer_event_handler :: "nat \<Rightarrow> time_t \<Rightarrow> device_grabber \<Rightarrow> device_grabber" where
  "grab_timer_event_handler t now s =
     (case map_of (dispatch_sources s) t of
        None \<Rightarrow> s
      | Some last_warning_message_time \<Rightarrow>
          if grabbed s then s
          else
            let w0 = None;
                w1 = (if \<not> is_ready (event_manipulator_ref s)
                      then Some ''event_manipulator_ is not ready. Please wait for a while.''
                      else w0);
                w2 = (if 0 < get_all_devices_pressed_keys_count s
                      then Some ''There are pressed down keys in some devices. Please release them.''
                      else w1)
            in (case w2 of
                  Some warning_message \<Rightarrow>
                    if last_warning_message_time \<noteq> now
                    then s\<lparr>dispatch_sources := AList.update t now (dispatch_sources s),
                           logger := logger s @ [log_warn warning_message]\<rparr>
                    else grab_completion s
                | None \<Rightarrow> grab_completion s))"

subsection \<open>ungrab_devices and the other public methods\<close>

definition ungrab_devices :: "device_grabber \<Rightarrow> device_grabber" where
  "ungrab_devices s =
     (if \<not> grabbed s then s
      else
        let s1 = s\<lparr>grabbed := False\<rparr>;
            s2 = cancel_grab_timer s1;
            s3 = s2\<lparr>hids :=
                   map (\<lambda>it. (fst it, clear_pressed_keys (clear_changed_keys (ungrab (snd it)))))
                     (hids s2)\<rparr>;
            s4 = s3\<lparr>modifier_flag_manager_member := reset (modifier_flag_manager_member s3)\<rparr>;
            s5 = s4\<lparr>hid_system_client_member :=
                   set_caps_lock_state False (hid_system_client_member s4)\<rparr>;
            s6 = s5\<lparr>console_user_client_member :=
                   stop_key_repeat (console_user_client_member s5)\<rparr>
        in s6\<lparr>logger := logger s6 @ [log_info ''devices are ungrabbed'']\<rparr>)"

definition post_connect_ack :: "device_grabber \<Rightarrow> device_grabber" where
  "post_connect_ack s =
     s\<lparr>console_user_client_member := connect_ack (console_user_client_member s)\<rparr>"

definition set_caps_lock_led_state :: "led_state \<Rightarrow> device_grabber \<Rightarrow> device_grabber" where
  "set_caps_lock_led_state st s =
     s\<lparr>hids := map (\<lambda>it. (fst it, hid_set_caps_lock_led_state st (snd it))) (hids s)\<rparr>"

subsection \<open>The hot-plug callbacks\<close>

text \<open>
  \<open>p\<close> is what the operating system reports about the matched device; the handle is
  built from it. The reference \<^verbatim>\<open>dev\<close> of the source points into the registry, so
  \<^verbatim>\<open>grab(*dev)\<close> and \<^verbatim>\<open>observe(*dev)\<close> change the entry in place.
\<close>

definition device_matching_callback ::
  "IOHIDDeviceRef \<Rightarrow> device_properties \<Rightarrow> device_grabber \<Rightarrow> device_grabber" where
  "device_matching_callback device p s =
     (if device = null_device then s
      else
        let s1 = s\<lparr>hids := AList.update device (make_human_interface_device p) (hids s)\<rparr>;
            dev = make_human_interface_device p;
            s2 = s1\<lparr>logger := logger s1 @
                   [log_matching_device
                      (value_or (get_manufacturer dev) [])
                      (value_or (get_product dev) [])
                      (value_or (get_vendor_id dev) 0)
                      (value_or (get_product_id dev) 0)
                      (value_or (get_location_id dev) 0)
                      (value_or (get_serial_number dev) [])
                      (get_registry_entry_id dev)]\<rparr>
        in if grabbed s2
           then s2\<lparr>hids := AList.map_entry device (grab s2) (hids s2)\<rparr>
           else s2\<lparr>hids := AList.map_entry device observe (hids s2)\<rparr>)"

text \<open>
  The static callbacks get the grabber as an untyped context pointer, \<open>None\<close> when it is
  null, and drop a notification whose result is not \<^verbatim>\<open>kIOReturnSuccess\<close>.
\<close>

definition static_device_matching_callback ::
  "device_grabber option \<Rightarrow> IOReturn \<Rightarrow> IOHIDDeviceRef \<Rightarrow> device_properties
     \<Rightarrow> device_grabber option" where
  "static_device_matching_callback context result device p =
     (if result \<noteq> kIOReturnSuccess then context
      else (case context of
              None \<Rightarrow> None
            | Some self \<Rightarrow> Some (device_matching_callback device p self)))"

definition device_removal_callback :: "IOHIDDeviceRef \<Rightarrow> device_grabber \<Rightarrow> device_grabber" where
  "device_removal_callback device s =
     (if device = null_device then s
      else (case map_of (hids s) device of
              None \<Rightarrow> s
            | Some dev \<Rightarrow>
                let s1 = s\<lparr>logger := logger s @
                           [log_removal_device
                              (value_or (get_vendor_id dev) 0)
                              (value_or (get_product_id dev) 0)
                              (value_or (get_location_id dev) 0)]\<rparr>
                in s1\<lparr>hids := AList.delete device (hids s1)\<rparr>))"

definition static_device_removal_callback ::
  "device_grabber option \<Rightarrow> IOReturn \<Rightarrow> IOHIDDeviceRef \<Rightarrow> device_grabber option" where
  "static_device_removal_callback context result device =
     (if result \<noteq> kIOReturnSuccess then context
      else (case context of
              None \<Rightarrow> None
            | Some self \<Rightarrow> Some (device_removal_callback device self)))"

subsection \<open>The event router\<close>

text \<open>
  The usage tables \<^verbatim>\<open>apple_hid_usage_tables.hpp\<close>, the system's HID usage tables and
  \<^verbatim>\<open>types.hpp\<close> are not part of the sources at hand: the constants that
  \<^verbatim>\<open>value_callback\<close> compares with are parameters. The labels of a \<^verbatim>\<open>switch\<close> are
  distinct, which is the condition \<open>distinct_pages\<close>.
\<close>

record usage_tables =
  kHIDPage_KeyboardOrKeypad :: "32 word"
  kHIDUsage_KeyboardErrorUndefined :: "32 word"
  kHIDUsage_Keyboard_Reserved :: "32 word"
  kHIDPage_AppleVendorTopCase :: "32 word"
  kHIDUsage_AV_TopCase_KeyboardFn :: "32 word"
  vk_fn_modifier :: key_code

definition distinct_pages :: "usage_tables \<Rightarrow> bool" where
  "distinct_pages T = (kHIDPage_KeyboardOrKeypad T \<noteq> kHIDPage_AppleVendorTopCase T)"

text \<open>
  \<open>device\<close> is the handle that reports the value; \<open>usage_page\<close> and \<open>usage\<close> are
  \<^verbatim>\<open>uint32_t\<close>, \<open>integer_value\<close> is a \<^verbatim>\<open>CFIndex\<close>, and its conversion to \<^verbatim>\<open>bool\<close> is
  true for every value but 0. The parameters \<^verbatim>\<open>value\<close> and \<^verbatim>\<open>element\<close> are not used.
\<close>

definition value_callback ::
  "usage_tables \<Rightarrow> human_interface_device \<Rightarrow> 32 word \<Rightarrow> 32 word \<Rightarrow> 64 word
     \<Rightarrow> device_grabber \<Rightarrow> device_grabber" where
  "value_callback T device usage_page usage integer_value s =
     (if \<not> grabbed s then s
      else
        let device_registry_entry_id = get_registry_entry_id device in
        if usage_page = kHIDPage_KeyboardOrKeypad T then
          (if kHIDUsage_KeyboardErrorUndefined T < usage \<and> usage < kHIDUsage_Keyboard_Reserved T
           then
             let pressed = (integer_value \<noteq> 0) in
             s\<lparr>event_manipulator_ref :=
                 handle_keyboard_event device_registry_entry_id usage pressed
                   (event_manipulator_ref s)\<rparr>
           else s)
        else if usage_page = kHIDPage_AppleVendorTopCase T then
          (if usage = kHIDUsage_AV_TopCase_KeyboardFn T
           then
             let pressed = (integer_value \<noteq> 0) in
             s\<lparr>event_manipulator_ref :=
                 handle_keyboard_event device_registry_entry_id (vk_fn_modifier T) pressed
                   (event_manipulator_ref s)\<rparr>
           else s)
        else s)"

subsection \<open>The states the grabber can be in\<close>

text \<open>
  The states that the constructor and any sequence of calls and callbacks lead to. The
  hot-plug callbacks arrive only when the constructor registered them; a value is
  reported by a handle of the registry. The last four rules are the steps of the
  collaborators that the grabber only reads: the readiness of the remapping engine, the
  system's caps-lock state, the keys a handle has buffered, and the answers of the
  operating system to a request to seize or release a device.
\<close>

inductive reachable :: "device_grabber \<Rightarrow> bool" where
  reach_new: "reachable (device_grabber_new em hsc manager_created dictionaries_created)"
| reach_grab_devices: "reachable s \<Longrightarrow> reachable (grab_devices now s)"
| reach_timer: "reachable s \<Longrightarrow> reachable (grab_timer_event_handler t now s)"
| reach_ungrab_devices: "reachable s \<Longrightarrow> reachable (ungrab_devices s)"
| reach_post_connect_ack: "reachable s \<Longrightarrow> reachable (post_connect_ack s)"
| reach_set_caps_lock_led_state:
    "reachable s \<Longrightarrow> reachable (set_caps_lock_led_state st s)"
| reach_clear_simple_modifications:
    "reachable s \<Longrightarrow> reachable (clear_simple_modifications s)"
| reach_add_simple_modification:
    "reachable s \<Longrightarrow> reachable (add_simple_modification from_key_code to_key_code s)"
| reach_matching:
    "reachable s \<Longrightarrow> callbacks_registered s \<Longrightarrow>
     reachable (device_matching_callback device p s)"
| reach_removal:
    "reachable s \<Longrightarrow> callbacks_registered s \<Longrightarrow>
     reachable (device_removal_callback device s)"
| reach_value:
    "reachable s \<Longrightarrow> map_of (hids s) device = Some hid \<Longrightarrow>
     reachable (value_callback T hid usage_page usage integer_value s)"
| reach_engine_ready:
    "reachable s \<Longrightarrow>
     reachable (s\<lparr>event_manipulator_ref := (event_manipulator_ref s)\<lparr>ready := b\<rparr>\<rparr>)"
| reach_caps_lock:
    "reachable s \<Longrightarrow>
     reachable (s\<lparr>hid_system_client_member :=
                  (hid_system_client_member s)\<lparr>caps_lock_state := c\<rparr>\<rparr>)"
| reach_keys:
    "reachable s \<Longrightarrow>
     reachable (s\<lparr>hids :=
                  AList.map_entry device
                    (\<lambda>hid. hid\<lparr>pressed_keys := pk, changed_keys := ck\<rparr>) (hids s)\<rparr>)"
| reach_os_answers:
    "reachable s \<Longrightarrow>
     reachable (s\<lparr>hids :=
                  AList.map_entry device
                    (\<lambda>hid. hid\<lparr>properties :=
                             (properties hid)\<lparr>seize_ok := so, release_ok := ro\<rparr>\<rparr>)
                    (hids s)\<rparr>)"

text \<open>
  At most one timer source is alive, and it is the one \<^verbatim>\<open>grab_timer_\<close> holds; its
  number is below the next fresh one. The null reference is no key of the registry.
\<close>

definition timer_invariant :: "device_grabber \<Rightarrow> bool" where
  "timer_invariant s =
     (map fst (dispatch_sources s) = (case grab_timer s of None \<Rightarrow> [] | Some t \<Rightarrow> [t])
      \<and> (\<forall>t. grab_timer s = Some t \<longrightarrow> t < next_dispatch_source s))"

definition registry_invariant :: "device_grabber \<Rightarrow> bool" where
  "registry_invariant s = (map_of (hids s) null_device = None)"

text \<open>
  The calls on a handle that take part in seizing it: the grabber makes them in \<^verbatim>\<open>grab\<close>
  and \<^verbatim>\<open>ungrab\<close>, behind the test on the manufacturer. A self-originated handle is
  left alone when it is not in the grabbed capability state and has received none of
  these calls.
\<close>

fun seize_call :: "hid_call \<Rightarrow> bool" where
  "seize_call (call_grab cb) = True"
| "seize_call call_ungrab = True"
| "seize_call call_unobserve = True"
| "seize_call _ = False"

definition left_alone :: "human_interface_device \<Rightarrow> bool" where
  "left_alone hid =
     (self_originated hid \<longrightarrow>
        capability hid \<noteq> capability_grabbed \<and> \<not> list_ex seize_call (calls hid))"

definition exclusion_invariant :: "device_grabber \<Rightarrow> bool" where
  "exclusion_invariant s = list_all (\<lambda>it. left_alone (snd it)) (hids s)"

subsection \<open>Concrete devices and states\<close>

definition keyboard_properties :: device_properties where
  "keyboard_properties =
     \<lparr>manufacturer = Some ''Apple Inc.'', product = Some ''Apple Keyboard'',
      vendor_id = Some 1452, product_id = Some 610, location_id = None,
      serial_number = None, registry_entry_id = 4294969000,
      seize_ok = True, release_ok = True\<rparr>"

definition virtual_properties :: device_properties where
  "virtual_properties =
     \<lparr>manufacturer = Some ''pqrs.org'', product = Some ''VirtualHIDKeyboard'',
      vendor_id = None, product_id = None, location_id = None,
      serial_number = None, registry_entry_id = 4294969100,
      seize_ok = True, release_ok = True\<rparr>"

definition engine_ready :: event_manipulator where
  "engine_ready = \<lparr>ready = True, handled_keyboard_events = []\<rparr>"

definition caps_lock_on :: hid_system_client where
  "caps_lock_on = \<lparr>caps_lock_state = Some True\<rparr>"

definition caps_lock_unreadable :: hid_system_client where
  "caps_lock_unreadable = \<lparr>caps_lock_state = None\<rparr>"

text \<open>
  Usage tables with the values of the system's HID usage tables, and a function-modifier
  key code above the keyboard usages.
\<close>

definition system_usage_tables :: usage_tables where
  "system_usage_tables =
     \<lparr>kHIDPage_KeyboardOrKeypad = 0x07,
      kHIDUsage_KeyboardErrorUndefined = 0x03,
      kHIDUsage_Keyboard_Reserved = 0xFFFF,
      kHIDPage_AppleVendorTopCase = 0xFF,
      kHIDUsage_AV_TopCase_KeyboardFn = 0x03,
      vk_fn_modifier = 0x1001\<rparr>"

text \<open>
  A fresh grabber, then a keyboard and the program's own virtual keyboard attached while
  nothing is grabbed.
\<close>

definition fresh_grabber :: device_grabber where
  "fresh_grabber = device_grabber_new engine_ready caps_lock_on True True"

definition one_keyboard :: device_grabber where
  "one_keyboard = device_matching_callback 1 keyboard_properties fresh_grabber"

definition two_devices :: device_grabber where
  "two_devices = device_matching_callback 2 virtual_properties one_keyboard"

text \<open>
  The two devices after \<^verbatim>\<open>grab_devices\<close> at second 100 and a tick of the timer, which
  grabs.
\<close>

definition two_devices_grabbed :: device_grabber where
  "two_devices_grabbed = grab_timer_event_handler 0 100 (grab_devices 100 two_devices)"

text \<open>
  The keyboard with the key of usage 4 held down, \<^verbatim>\<open>grab_devices\<close> at second 100, and
  then two ticks of the timer within second 100.
\<close>

definition key_held :: device_grabber where
  "key_held =
     one_keyboard\<lparr>hids :=
       AList.map_entry 1 (\<lambda>hid. hid\<lparr>pressed_keys := [4], changed_keys := [(4, True)]\<rparr>)
         (hids one_keyboard)\<rparr>"

definition key_held_armed :: device_grabber where
  "key_held_armed = grab_devices 100 key_held"

definition key_held_first_tick :: device_grabber where
  "key_held_first_tick = grab_timer_event_handler 0 100 key_held_armed"

definition key_held_second_tick :: device_grabber where
  "key_held_second_tick = grab_timer_event_handler 0 100 key_held_first_tick"



section \<open>Properties\<close>

subsection \<open>The handle operations of the grabber\<close>

lemmas hid_defs = hid_observe_def hid_unobserve_def hid_grab_def hid_ungrab_def
  hid_set_caps_lock_led_state_def clear_changed_keys_def clear_pressed_keys_def
  observe_def unobserve_def get_manufacturer_def

lemma grab_self_originated: "self_originated hid \<Longrightarrow> grab s hid = hid"
  by (simp add: grab_def self_originated_def)

lemma grab_ordinary:
  "\<not> self_originated hid \<Longrightarrow>
   grab s hid =
     hid_set_caps_lock_led_state
       (if get_caps_lock_state (hid_system_client_member s) = Some True
        then led_state_on else led_state_off)
       (hid_grab bound_value_callback (hid_unobserve hid))"
  by (simp add: grab_def self_originated_def unobserve_def Let_def)

lemma ungrab_self_originated: "self_originated hid \<Longrightarrow> ungrab hid = hid"
  by (simp add: ungrab_def self_originated_def)

lemma ungrab_ordinary:
  "\<not> self_originated hid \<Longrightarrow> ungrab hid = hid_observe empty_callback (hid_ungrab hid)"
  by (simp add: ungrab_def self_originated_def observe_def Let_def)

lemma self_originated_kept:
  "self_originated (clear_pressed_keys hid) = self_originated hid"
  "self_originated (clear_changed_keys hid) = self_originated hid"
  "self_originated (grab s hid) = self_originated hid"
  "self_originated (ungrab hid) = self_originated hid"
  by (simp_all add: self_originated_def grab_def ungrab_def hid_defs Let_def)

lemma grab_reads_caps_lock_only:
  "hid_system_client_member s' = hid_system_client_member s \<Longrightarrow> grab s' hid = grab s hid"
  by (simp add: grab_def Let_def)


lemma skipped_device_after_completion:
  "self_originated hid \<Longrightarrow>
   clear_pressed_keys (clear_changed_keys (grab s hid)) =
     hid\<lparr>pressed_keys := [], changed_keys := [],
         calls := calls hid @ [call_clear_changed_keys, call_clear_pressed_keys]\<rparr>"
  by (simp add: grab_self_originated hid_defs)

lemma observed_device_after_ungrab:
  "\<not> self_originated hid \<Longrightarrow>
   clear_pressed_keys (clear_changed_keys (ungrab hid)) =
     hid\<lparr>capability := capability_observed,
         pressed_keys := [],
         changed_keys := [],
         calls := calls hid @
           [call_ungrab, call_observe empty_callback,
            call_clear_changed_keys, call_clear_pressed_keys]\<rparr>"
  by (simp add: ungrab_ordinary hid_defs)

lemma skipped_device_after_ungrab:
  "self_originated hid \<Longrightarrow>
   clear_pressed_keys (clear_changed_keys (ungrab hid)) =
     hid\<lparr>pressed_keys := [], changed_keys := [],
         calls := calls hid @ [call_clear_changed_keys, call_clear_pressed_keys]\<rparr>"
  by (simp add: ungrab_self_originated hid_defs)

lemma map_of_map_values:
  "map_of (map (\<lambda>it. (fst it, f (snd it))) xs) k = map_option f (map_of xs k)"
  by (induction xs) auto

subsection \<open>The effect of the blocks on each member\<close>

lemma cancel_grab_timer_simps:
  "grab_timer (cancel_grab_timer s) = None"
  "dispatch_sources (cancel_grab_timer s) =
     (case grab_timer s of None \<Rightarrow> dispatch_sources s
      | Some t \<Rightarrow> AList.delete t (dispatch_sources s))"
  "hids (cancel_grab_timer s) = hids s"
  "grabbed (cancel_grab_timer s) = grabbed s"
  "logger (cancel_grab_timer s) = logger s"
  "event_manipulator_ref (cancel_grab_timer s) = event_manipulator_ref s"
  "hid_system_client_member (cancel_grab_timer s) = hid_system_client_member s"
  "modifier_flag_manager_member (cancel_grab_timer s) = modifier_flag_manager_member s"
  "console_user_client_member (cancel_grab_timer s) = console_user_client_member s"
  "simple_modifications (cancel_grab_timer s) = simple_modifications s"
  "grab_retry_count (cancel_grab_timer s) = grab_retry_count s"
  "next_dispatch_source (cancel_grab_timer s) = next_dispatch_source s"
  "callbacks_registered (cancel_grab_timer s) = callbacks_registered s"
  "manager (cancel_grab_timer s) = manager s"
  by (simp_all add: cancel_grab_timer_def split: option.split)

lemma grab_completion_simps:
  "grabbed (grab_completion s) = True"
  "hids (grab_completion s) =
     map (\<lambda>it. (fst it, clear_pressed_keys (clear_changed_keys (grab s (snd it))))) (hids s)"
  "modifier_flag_manager_member (grab_completion s) = []"
  "hid_system_client_member (grab_completion s) =
     set_caps_lock_state False (hid_system_client_member s)"
  "logger (grab_completion s) = logger s @ [log_info ''devices are grabbed'']"
  "grab_timer (grab_completion s) = None"
  "dispatch_sources (grab_completion s) =
     (case grab_timer s of None \<Rightarrow> dispatch_sources s
      | Some t \<Rightarrow> AList.delete t (dispatch_sources s))"
  "event_manipulator_ref (grab_completion s) = event_manipulator_ref s"
  "console_user_client_member (grab_completion s) = console_user_client_member s"
  "simple_modifications (grab_completion s) = simple_modifications s"
  "grab_retry_count (grab_completion s) = grab_retry_count s"
  "next_dispatch_source (grab_completion s) = next_dispatch_source s"
  "callbacks_registered (grab_completion s) = callbacks_registered s"
  by (simp_all add: grab_completion_def Let_def cancel_grab_timer_simps reset_def
      grab_reads_caps_lock_only [of "s\<lparr>grabbed := True\<rparr>" s] split: option.split)


lemma tick_flips_only_by_completion:
  assumes "\<not> grabbed s" "grabbed (grab_timer_event_handler t now s)"
  shows "grab_timer_event_handler t now s = grab_completion s"
  using assms
  by (auto simp add: grab_timer_event_handler_def Let_def split: option.splits if_splits)

lemma ungrab_devices_simps:
  assumes "grabbed s"
  shows "grabbed (ungrab_devices s) = False"
    "hids (ungrab_devices s) =
       map (\<lambda>it. (fst it, clear_pressed_keys (clear_changed_keys (ungrab (snd it))))) (hids s)"
    "modifier_flag_manager_member (ungrab_devices s) = []"
    "hid_system_client_member (ungrab_devices s) =
       set_caps_lock_state False (hid_system_client_member s)"
    "console_user_client_member (ungrab_devices s) =
       console_user_client_member s @ [call_stop_key_repeat]"
    "logger (ungrab_devices s) = logger s @ [log_info ''devices are ungrabbed'']"
    "grab_timer (ungrab_devices s) = None"
    "dispatch_sources (ungrab_devices s) =
       (case grab_timer s of None \<Rightarrow> dispatch_sources s
        | Some t \<Rightarrow> AList.delete t (dispatch_sources s))"
    "event_manipulator_ref (ungrab_devices s) = event_manipulator_ref s"
    "simple_modifications (ungrab_devices s) = simple_modifications s"
    "grab_retry_count (ungrab_devices s) = grab_retry_count s"
    "next_dispatch_source (ungrab_devices s) = next_dispatch_source s"
    "callbacks_registered (ungrab_devices s) = callbacks_registered s"
  using assms
  by (simp_all add: ungrab_devices_def Let_def cancel_grab_timer_simps reset_def
      stop_key_repeat_def split: option.split)

lemma tick_with_unmet_precondition:
  assumes "map_of (dispatch_sources s) t = Some lw" "\<not> grabbed s"
    and "\<not> is_ready (event_manipulator_ref s) \<or> 0 < get_all_devices_pressed_keys_count s"
  shows "lw \<noteq> now \<Longrightarrow>
           grabbed (grab_timer_event_handler t now s) = False
           \<and> hids (grab_timer_event_handler t now s) = hids s
           \<and> map_of (dispatch_sources (grab_timer_event_handler t now s)) t = Some now"
    and "lw = now \<Longrightarrow> grab_timer_event_handler t now s = grab_completion s"
  using assms by (auto simp add: grab_timer_event_handler_def update_conv')

subsection \<open>Invariants of the reachable states\<close>

lemma timer_invariant_cancel:
  "timer_invariant s \<Longrightarrow> dispatch_sources (cancel_grab_timer s) = []"
  by (cases "dispatch_sources s")
    (auto simp add: timer_invariant_def cancel_grab_timer_simps split: option.splits)

lemma grab_devices_timer:
  assumes "timer_invariant s"
  shows "grab_timer (grab_devices now s) = Some (next_dispatch_source s)"
    "dispatch_sources (grab_devices now s) = [(next_dispatch_source s, now - 1)]"
    "next_dispatch_source (grab_devices now s) = Suc (next_dispatch_source s)"
    "grab_retry_count (grab_devices now s) = 0"
  using timer_invariant_cancel [OF assms]
  by (simp_all add: grab_devices_def Let_def cancel_grab_timer_simps)

lemma timer_invariant_grab_devices:
  "timer_invariant s \<Longrightarrow> timer_invariant (grab_devices now s)"
  by (simp add: timer_invariant_def [of "grab_devices now s"] grab_devices_timer)

lemma timer_invariant_grab_completion:
  assumes "timer_invariant s"
  shows "timer_invariant (grab_completion s)"
proof -
  have "dispatch_sources (grab_completion s) = dispatch_sources (cancel_grab_timer s)"
    "grab_timer (grab_completion s) = None"
    by (simp_all add: grab_completion_def Let_def cancel_grab_timer_simps split: option.split)
  then show ?thesis
    using timer_invariant_cancel [OF assms] by (simp add: timer_invariant_def)
qed

lemma timer_invariant_same:
  "timer_invariant s \<Longrightarrow> dispatch_sources s' = dispatch_sources s \<Longrightarrow>
   grab_timer s' = grab_timer s \<Longrightarrow> next_dispatch_source s' = next_dispatch_source s \<Longrightarrow>
   timer_invariant s'"
  by (simp add: timer_invariant_def)

lemma timer_invariant_tick:
  assumes "timer_invariant s"
  shows "timer_invariant (grab_timer_event_handler t now s)"
proof (cases "map_of (dispatch_sources s) t")
  case None
  then show ?thesis using assms by (simp add: grab_timer_event_handler_def)
next
  case (Some lw)
  then obtain x where src: "dispatch_sources s = [(t, x)]" and gt: "grab_timer s = Some t"
    using assms
    by (cases "dispatch_sources s")
      (auto simp add: timer_invariant_def split: option.splits if_splits)
  have warn: "timer_invariant
      (s\<lparr>dispatch_sources := AList.update t now (dispatch_sources s),
         logger := logger s @ [log_warn w]\<rparr>)" for w
    using assms src gt by (simp add: timer_invariant_def)
  show ?thesis
    using assms warn timer_invariant_grab_completion [OF assms]
    by (simp add: grab_timer_event_handler_def Some Let_def)
qed

lemma timer_invariant_ungrab_devices:
  assumes "timer_invariant s"
  shows "timer_invariant (ungrab_devices s)"
proof (cases "grabbed s")
  case False
  then show ?thesis using assms by (simp add: ungrab_devices_def)
next
  case True
  have "dispatch_sources (cancel_grab_timer (s\<lparr>grabbed := False\<rparr>)) = []"
    by (rule timer_invariant_cancel) (use assms in \<open>simp add: timer_invariant_def\<close>)
  then show ?thesis
    using True by (simp add: ungrab_devices_def Let_def cancel_grab_timer_simps
        timer_invariant_def)
qed

lemma registry_invariant_same:
  "registry_invariant s \<Longrightarrow> hids s' = hids s \<Longrightarrow> registry_invariant s'"
  by (simp add: registry_invariant_def)

lemma registry_invariant_map:
  "registry_invariant s \<Longrightarrow> hids s' = map (\<lambda>it. (fst it, f (snd it))) (hids s) \<Longrightarrow>
   registry_invariant s'"
  by (simp add: registry_invariant_def map_of_map_values)

lemma registry_invariant_grab_completion:
  "registry_invariant s \<Longrightarrow> registry_invariant (grab_completion s)"
  by (rule registry_invariant_map
      [where f = "\<lambda>hid. clear_pressed_keys (clear_changed_keys (grab s hid))"])
    (simp_all add: grab_completion_simps)

lemma registry_invariant_tick:
  "registry_invariant s \<Longrightarrow> registry_invariant (grab_timer_event_handler t now s)"
  using registry_invariant_grab_completion [of s]
  by (auto simp add: grab_timer_event_handler_def Let_def registry_invariant_def
      split: option.splits)

lemma registry_invariant_ungrab_devices:
  assumes "registry_invariant s"
  shows "registry_invariant (ungrab_devices s)"
proof (cases "grabbed s")
  case False
  then show ?thesis using assms by (simp add: ungrab_devices_def)
next
  case True
  show ?thesis
    by (rule registry_invariant_map
        [where f = "\<lambda>hid. clear_pressed_keys (clear_changed_keys (ungrab hid))", OF assms])
      (simp add: ungrab_devices_def True Let_def cancel_grab_timer_simps)
qed

lemma registry_invariant_matching:
  "registry_invariant s \<Longrightarrow> registry_invariant (device_matching_callback device p s)"
  by (simp add: device_matching_callback_def Let_def registry_invariant_def
      map_of_map_entry update_conv')

lemma registry_invariant_removal:
  "registry_invariant s \<Longrightarrow> registry_invariant (device_removal_callback device s)"
  by (simp add: device_removal_callback_def Let_def registry_invariant_def delete_conv'
      split: option.split)

lemma reachable_invariants:
  "reachable s \<Longrightarrow> timer_invariant s \<and> registry_invariant s"
proof (induction rule: reachable.induct)
  case (reach_new em hsc manager_created dictionaries_created)
  show ?case
    by (simp add: device_grabber_new_def timer_invariant_def registry_invariant_def Let_def)
next
  case (reach_grab_devices s now)
  have "hids (grab_devices now s) = hids s"
    by (simp add: grab_devices_def Let_def cancel_grab_timer_simps)
  with reach_grab_devices.IH show ?case
    by (simp add: timer_invariant_grab_devices registry_invariant_def)
next
  case (reach_timer s t now)
  then show ?case by (simp add: timer_invariant_tick registry_invariant_tick)
next
  case (reach_ungrab_devices s)
  then show ?case
    by (simp add: timer_invariant_ungrab_devices registry_invariant_ungrab_devices)
next
  case (reach_post_connect_ack s)
  then show ?case
    by (simp add: post_connect_ack_def timer_invariant_def registry_invariant_def)
next
  case (reach_set_caps_lock_led_state s st)
  then show ?case
    by (simp add: set_caps_lock_led_state_def timer_invariant_def
        registry_invariant_map [where f = "hid_set_caps_lock_led_state st" and s = s])
next
  case (reach_clear_simple_modifications s)
  then show ?case
    by (simp add: clear_simple_modifications_def timer_invariant_def registry_invariant_def)
next
  case (reach_add_simple_modification s from_key_code to_key_code)
  then show ?case
    by (simp add: add_simple_modification_def timer_invariant_def registry_invariant_def)
next
  case (reach_matching s device p)
  have "timer_invariant (device_matching_callback device p s)"
    by (rule timer_invariant_same [of s])
      (simp_all add: reach_matching.IH device_matching_callback_def Let_def)
  with reach_matching.IH show ?case
    by (simp add: registry_invariant_matching)
next
  case (reach_removal s device)
  have "timer_invariant (device_removal_callback device s)"
    by (rule timer_invariant_same [of s])
      (simp_all add: reach_removal.IH device_removal_callback_def Let_def split: option.split)
  with reach_removal.IH show ?case
    by (simp add: registry_invariant_removal)
next
  case (reach_value s device hid T usage_page usage integer_value)
  then show ?case
    by (simp add: value_callback_def Let_def timer_invariant_def registry_invariant_def)
next
  case (reach_engine_ready s b)
  then show ?case by (simp add: timer_invariant_def registry_invariant_def)
next
  case (reach_caps_lock s c)
  then show ?case by (simp add: timer_invariant_def registry_invariant_def)
next
  case (reach_keys s device ck pk)
  then show ?case
    by (simp add: timer_invariant_def registry_invariant_def map_of_map_entry)
next
  case (reach_os_answers s device ro so)
  then show ?case
    by (simp add: timer_invariant_def registry_invariant_def map_of_map_entry)
qed

lemma left_alone_steps:
  "left_alone (make_human_interface_device p)"
  "left_alone hid \<Longrightarrow> left_alone (grab s hid)"
  "left_alone hid \<Longrightarrow> left_alone (ungrab hid)"
  "left_alone hid \<Longrightarrow> left_alone (observe hid)"
  "left_alone hid \<Longrightarrow> left_alone (clear_changed_keys hid)"
  "left_alone hid \<Longrightarrow> left_alone (clear_pressed_keys hid)"
  "left_alone hid \<Longrightarrow> left_alone (hid_set_caps_lock_led_state st hid)"
  "left_alone hid \<Longrightarrow> left_alone (hid\<lparr>pressed_keys := pk, changed_keys := ck\<rparr>)"
  "left_alone hid \<Longrightarrow>
   left_alone (hid\<lparr>properties := (properties hid)\<lparr>seize_ok := so, release_ok := ro\<rparr>\<rparr>)"
  by (auto simp add: left_alone_def self_originated_def grab_def ungrab_def hid_defs Let_def
      make_human_interface_device_def list_ex_iff)

lemma list_all_map_values:
  "list_all (\<lambda>it. P (snd it)) xs \<Longrightarrow> (\<And>v. P v \<Longrightarrow> P (f v)) \<Longrightarrow>
   list_all (\<lambda>it. P (snd it)) (map (\<lambda>it. (fst it, f (snd it))) xs)"
  by (induction xs) auto

lemma list_all_map_entry:
  "list_all (\<lambda>it. P (snd it)) xs \<Longrightarrow> (\<And>v. P v \<Longrightarrow> P (f v)) \<Longrightarrow>
   list_all (\<lambda>it. P (snd it)) (AList.map_entry k f xs)"
  by (induction xs) auto

lemma list_all_update:
  "list_all (\<lambda>it. P (snd it)) xs \<Longrightarrow> P v \<Longrightarrow>
   list_all (\<lambda>it. P (snd it)) (AList.update k v xs)"
  by (induction xs) auto

lemma list_all_delete:
  "list_all (\<lambda>it. P (snd it)) xs \<Longrightarrow> list_all (\<lambda>it. P (snd it)) (AList.delete k xs)"
  by (induction xs) auto

lemma exclusion_invariant_grab_completion:
  assumes "exclusion_invariant s"
  shows "exclusion_invariant (grab_completion s)"
  unfolding exclusion_invariant_def grab_completion_simps
  by (rule list_all_map_values
      [where f = "\<lambda>hid. clear_pressed_keys (clear_changed_keys (grab s hid))"])
    (use assms in \<open>simp_all add: exclusion_invariant_def left_alone_steps\<close>)

lemma exclusion_invariant_tick:
  assumes "exclusion_invariant s"
  shows "exclusion_invariant (grab_timer_event_handler t now s)"
  using assms exclusion_invariant_grab_completion [OF assms]
  by (auto simp add: grab_timer_event_handler_def Let_def exclusion_invariant_def
      split: option.splits)

lemma exclusion_invariant_ungrab_devices:
  assumes "exclusion_invariant s"
  shows "exclusion_invariant (ungrab_devices s)"
proof (cases "grabbed s")
  case False
  then show ?thesis using assms by (simp add: ungrab_devices_def)
next
  case True
  show ?thesis
    unfolding exclusion_invariant_def ungrab_devices_simps [OF True]
    by (rule list_all_map_values
        [where f = "\<lambda>hid. clear_pressed_keys (clear_changed_keys (ungrab hid))"])
      (use assms in \<open>simp_all add: exclusion_invariant_def left_alone_steps\<close>)
qed

lemma exclusion_invariant_matching:
  assumes "exclusion_invariant s"
  shows "exclusion_invariant (device_matching_callback device p s)"
proof -
  have upd: "list_all (\<lambda>it. left_alone (snd it))
      (AList.update device (make_human_interface_device p) (hids s))"
    using assms by (simp add: exclusion_invariant_def list_all_update left_alone_steps)
  have "list_all (\<lambda>it. left_alone (snd it))
      (AList.map_entry device f
         (AList.update device (make_human_interface_device p) (hids s)))"
    if "\<And>v. left_alone v \<Longrightarrow> left_alone (f v)" for f
    using upd that by (rule list_all_map_entry)
  from this [of observe] this [of "grab s'" for s'] assms show ?thesis
    by (simp add: device_matching_callback_def Let_def exclusion_invariant_def
        left_alone_steps)
qed

lemma exclusion_invariant_removal:
  "exclusion_invariant s \<Longrightarrow> exclusion_invariant (device_removal_callback device s)"
  by (simp add: device_removal_callback_def Let_def exclusion_invariant_def list_all_delete
      split: option.split)

lemma reachable_exclusion_invariant:
  "reachable s \<Longrightarrow> exclusion_invariant s"
proof (induction rule: reachable.induct)
  case (reach_new em hsc manager_created dictionaries_created)
  show ?case by (simp add: device_grabber_new_def exclusion_invariant_def Let_def)
next
  case (reach_grab_devices s now)
  have "hids (grab_devices now s) = hids s"
    by (simp add: grab_devices_def Let_def cancel_grab_timer_simps)
  with reach_grab_devices.IH show ?case by (simp add: exclusion_invariant_def)
next
  case (reach_timer s t now)
  then show ?case by (simp add: exclusion_invariant_tick)
next
  case (reach_ungrab_devices s)
  then show ?case by (simp add: exclusion_invariant_ungrab_devices)
next
  case (reach_post_connect_ack s)
  then show ?case by (simp add: post_connect_ack_def exclusion_invariant_def)
next
  case (reach_set_caps_lock_led_state s st)
  then show ?case
    by (simp add: set_caps_lock_led_state_def exclusion_invariant_def
        list_all_map_values [where f = "hid_set_caps_lock_led_state st"] left_alone_steps)
next
  case (reach_clear_simple_modifications s)
  then show ?case by (simp add: clear_simple_modifications_def exclusion_invariant_def)
next
  case (reach_add_simple_modification s from_key_code to_key_code)
  then show ?case by (simp add: add_simple_modification_def exclusion_invariant_def)
next
  case (reach_matching s device p)
  then show ?case by (simp add: exclusion_invariant_matching)
next
  case (reach_removal s device)
  then show ?case by (simp add: exclusion_invariant_removal)
next
  case (reach_value s device hid T usage_page usage integer_value)
  then show ?case by (simp add: value_callback_def Let_def exclusion_invariant_def)
next
  case (reach_engine_ready s b)
  then show ?case by (simp add: exclusion_invariant_def)
next
  case (reach_caps_lock s c)
  then show ?case by (simp add: exclusion_invariant_def)
next
  case (reach_keys s device ck pk)
  then show ?case
    by (simp add: exclusion_invariant_def
        list_all_map_entry [where f = "\<lambda>hid. hid\<lparr>pressed_keys := pk, changed_keys := ck\<rparr>"]
        left_alone_steps)
next
  case (reach_os_answers s device ro so)
  then show ?case
    by (simp add: exclusion_invariant_def
        list_all_map_entry
          [where f = "\<lambda>hid. hid\<lparr>properties :=
              (properties hid)\<lparr>seize_ok := so, release_ok := ro\<rparr>\<rparr>"]
        left_alone_steps)
qed

subsection \<open>Concrete states\<close>

lemma fresh_grabber_simps:
  "grabbed fresh_grabber = False" "hids fresh_grabber = []"
  "callbacks_registered fresh_grabber = True" "logger fresh_grabber = []"
  "grab_timer fresh_grabber = None" "dispatch_sources fresh_grabber = []"
  "next_dispatch_source fresh_grabber = 0"
  "hid_system_client_member fresh_grabber = caps_lock_on"
  "event_manipulator_ref fresh_grabber = engine_ready"
  "console_user_client_member fresh_grabber = []"
  "modifier_flag_manager_member fresh_grabber = []"
  by (simp_all add: fresh_grabber_def device_grabber_new_def)

lemma one_keyboard_simps:
  "grabbed one_keyboard = False"
  "hids one_keyboard = [(1, hid_observe empty_callback (make_human_interface_device keyboard_properties))]"
  "callbacks_registered one_keyboard = True"
  "grab_timer one_keyboard = None" "dispatch_sources one_keyboard = []"
  "next_dispatch_source one_keyboard = 0"
  "hid_system_client_member one_keyboard = caps_lock_on"
  "event_manipulator_ref one_keyboard = engine_ready"
  "console_user_client_member one_keyboard = []"
  "modifier_flag_manager_member one_keyboard = []"
  by (simp_all add: one_keyboard_def device_matching_callback_def fresh_grabber_simps
      null_device_def Let_def observe_def)

lemma reachable_fresh_grabber: "reachable fresh_grabber"
  unfolding fresh_grabber_def by (rule reach_new)

lemma reachable_one_keyboard: "reachable one_keyboard"
  unfolding one_keyboard_def
  by (rule reach_matching [OF reachable_fresh_grabber]) (simp add: fresh_grabber_simps)

lemma reachable_two_devices: "reachable two_devices"
  unfolding two_devices_def
  by (rule reach_matching [OF reachable_one_keyboard]) (simp add: one_keyboard_simps)

lemma reachable_two_devices_grabbed: "reachable two_devices_grabbed"
  unfolding two_devices_grabbed_def
  by (intro reach_timer reach_grab_devices reachable_two_devices)

lemma reachable_key_held_first_tick: "reachable key_held_first_tick"
  unfolding key_held_first_tick_def key_held_armed_def key_held_def
  by (intro reach_timer reach_grab_devices reach_keys reachable_one_keyboard)

subsection \<open>The properties of the specification\<close>

text \<open>
  C1. A tick of the grab timer with a key held down. The keyboard is attached, one of its
  keys is down, \<^verbatim>\<open>grab_devices\<close> is called at second 100 and the timer has ticked once
  within that second, which logged the warning and stored 100 as the time of the last
  warning. At the next tick within second 100 the Grabbed Flag is false, the engine is
  ready and the pressed-key count is 1; the handler finds the time of the last warning
  equal to the clock, leaves the warning branch without returning, sets the Grabbed Flag
  and seizes the keyboard.
\<close>

theorem tick_grabs_while_key_is_held:
  "reachable key_held_first_tick
   \<and> \<not> grabbed key_held_first_tick
   \<and> grab_timer key_held_first_tick = Some 0
   \<and> dispatch_sources key_held_first_tick = [(0, 100)]
   \<and> is_ready (event_manipulator_ref key_held_first_tick)
   \<and> get_all_devices_pressed_keys_count key_held_first_tick = 1
   \<and> grabbed (grab_timer_event_handler 0 100 key_held_first_tick)
   \<and> map (\<lambda>it. calls (snd it)) (hids (grab_timer_event_handler 0 100 key_held_first_tick)) =
        [[call_observe empty_callback, call_unobserve, call_grab bound_value_callback,
          call_set_caps_lock_led_state led_state_on,
          call_clear_changed_keys, call_clear_pressed_keys]]
   \<and> grab_timer_event_handler 0 100 key_held_first_tick = key_held_second_tick"
proof -
  have "\<not> grabbed key_held_first_tick"
    "grab_timer key_held_first_tick = Some 0"
    "dispatch_sources key_held_first_tick = [(0, 100)]"
    "is_ready (event_manipulator_ref key_held_first_tick)"
    "get_all_devices_pressed_keys_count key_held_first_tick = 1"
    "grabbed (grab_timer_event_handler 0 100 key_held_first_tick)"
    "map (\<lambda>it. calls (snd it)) (hids (grab_timer_event_handler 0 100 key_held_first_tick)) =
        [[call_observe empty_callback, call_unobserve, call_grab bound_value_callback,
          call_set_caps_lock_led_state led_state_on,
          call_clear_changed_keys, call_clear_pressed_keys]]"
    by code_simp+
  then show ?thesis
    using reachable_key_held_first_tick by (simp add: key_held_second_tick_def)
qed

text \<open>
  C2. The matching callback for a self-originated device while the Grabbed Flag is
  false. The device with the manufacturer \<^verbatim>\<open>pqrs.org\<close> is attached to the grabber that
  holds one observed keyboard: the callback calls \<^verbatim>\<open>observe\<close> on the new handle, which
  is then in the observed capability state.
\<close>

theorem self_originated_device_is_observed:
  "reachable one_keyboard
   \<and> \<not> grabbed one_keyboard
   \<and> self_originated (make_human_interface_device virtual_properties)
   \<and> map_of (hids (device_matching_callback 2 virtual_properties one_keyboard)) 2 =
       Some ((make_human_interface_device virtual_properties)
               \<lparr>capability := capability_observed,
                calls := [call_observe empty_callback]\<rparr>)
   \<and> device_matching_callback 2 virtual_properties one_keyboard = two_devices"
proof -
  have "\<not> grabbed one_keyboard"
    "self_originated (make_human_interface_device virtual_properties)"
    "map_of (hids (device_matching_callback 2 virtual_properties one_keyboard)) 2 =
       Some ((make_human_interface_device virtual_properties)
               \<lparr>capability := capability_observed,
                calls := [call_observe empty_callback]\<rparr>)"
    by code_simp+
  then show ?thesis
    using reachable_one_keyboard by (simp add: two_devices_def)
qed






text \<open>
  C4. \<^verbatim>\<open>ungrab_devices\<close> while the Grabbed Flag is true clears the flag, cancels the
  armed grab timer, and on every device that is not self-originated releases the seizure,
  resumes the observation, and clears the buffered key state; it resets the modifier
  flag tracker, forces the caps-lock state to off, stops the key repeat of the session
  client, and logs the completion.
\<close>

theorem ungrab_devices_when_grabbed:
  assumes "grabbed s"
  shows "\<not> grabbed (ungrab_devices s)
       \<and> grab_timer (ungrab_devices s) = None
       \<and> (\<forall>t. grab_timer s = Some t \<longrightarrow>
            dispatch_sources (ungrab_devices s) = AList.delete t (dispatch_sources s)
            \<and> map_of (dispatch_sources (ungrab_devices s)) t = None)
       \<and> map fst (hids (ungrab_devices s)) = map fst (hids s)
       \<and> (\<forall>i < length (hids s). \<not> self_originated (snd (hids s ! i)) \<longrightarrow>
            snd (hids (ungrab_devices s) ! i) =
              (snd (hids s ! i))
                \<lparr>capability := capability_observed,
                 pressed_keys := [],
                 changed_keys := [],
                 calls := calls (snd (hids s ! i)) @
                   [call_ungrab, call_observe empty_callback,
                    call_clear_changed_keys, call_clear_pressed_keys]\<rparr>)
       \<and> modifier_flag_manager_member (ungrab_devices s) = []
       \<and> get_caps_lock_state (hid_system_client_member (ungrab_devices s)) = Some False
       \<and> console_user_client_member (ungrab_devices s) =
            console_user_client_member s @ [call_stop_key_repeat]
       \<and> logger (ungrab_devices s) = logger s @ [log_info ''devices are ungrabbed'']
       \<and> event_manipulator_ref (ungrab_devices s) = event_manipulator_ref s
       \<and> simple_modifications (ungrab_devices s) = simple_modifications s"
  using assms
  by (simp add: ungrab_devices_simps observed_device_after_ungrab
      get_caps_lock_state_def set_caps_lock_state_def AList.delete_conv')

theorem ungrab_devices_when_grabbed_witness:
  "grabbed two_devices_grabbed
   \<and> \<not> grabbed (ungrab_devices two_devices_grabbed)
   \<and> map (\<lambda>it. capability (snd it)) (hids two_devices_grabbed) =
        [capability_grabbed, capability_observed]
   \<and> map (\<lambda>it. capability (snd it)) (hids (ungrab_devices two_devices_grabbed)) =
        [capability_observed, capability_observed]
   \<and> console_user_client_member (ungrab_devices two_devices_grabbed) = [call_stop_key_repeat]"
proof -
  have h: "grabbed two_devices_grabbed" by code_simp
  have c1: "map (\<lambda>it. capability (snd it)) (hids two_devices_grabbed) =
      [capability_grabbed, capability_observed]" by code_simp
  have c2: "map (\<lambda>it. capability (snd it)) (hids (ungrab_devices two_devices_grabbed)) =
      [capability_observed, capability_observed]" by code_simp
  have c3: "console_user_client_member two_devices_grabbed = []" by code_simp
  show ?thesis
    using h c1 c2 c3 ungrab_devices_when_grabbed [OF h] by simp
qed

text \<open>
  C5. \<^verbatim>\<open>value_callback\<close> hands nothing to the remapping engine while the Grabbed Flag
  is false. While it is true, a usage of the keyboard page strictly between the
  error/undefined usage and the reserved usage is handed over once, as the key code of
  the usage, pressed exactly when the integer value is not 0; the function key usage of
  the vendor page is handed over as the function-modifier key code; every other usage or
  page is dropped. The callback changes nothing but the remapping engine: the Grabbed
  Flag and the registry are as before.
\<close>

theorem value_callback_routing:
  "(\<not> grabbed s \<longrightarrow> value_callback T device usage_page usage integer_value s = s)
   \<and> (grabbed s \<and> usage_page = kHIDPage_KeyboardOrKeypad T
        \<and> kHIDUsage_KeyboardErrorUndefined T < usage \<and> usage < kHIDUsage_Keyboard_Reserved T
      \<longrightarrow> handled_keyboard_events
            (event_manipulator_ref (value_callback T device usage_page usage integer_value s)) =
          handled_keyboard_events (event_manipulator_ref s) @
            [(get_registry_entry_id device, usage, integer_value \<noteq> 0)])
   \<and> (grabbed s \<and> distinct_pages T \<and> usage_page = kHIDPage_AppleVendorTopCase T
        \<and> usage = kHIDUsage_AV_TopCase_KeyboardFn T
      \<longrightarrow> handled_keyboard_events
            (event_manipulator_ref (value_callback T device usage_page usage integer_value s)) =
          handled_keyboard_events (event_manipulator_ref s) @
            [(get_registry_entry_id device, vk_fn_modifier T, integer_value \<noteq> 0)])
   \<and> (usage_page = kHIDPage_KeyboardOrKeypad T
        \<and> \<not> (kHIDUsage_KeyboardErrorUndefined T < usage \<and> usage < kHIDUsage_Keyboard_Reserved T)
      \<longrightarrow> value_callback T device usage_page usage integer_value s = s)
   \<and> (usage_page \<noteq> kHIDPage_KeyboardOrKeypad T
        \<and> \<not> (usage_page = kHIDPage_AppleVendorTopCase T
              \<and> usage = kHIDUsage_AV_TopCase_KeyboardFn T)
      \<longrightarrow> value_callback T device usage_page usage integer_value s = s)
   \<and> grabbed (value_callback T device usage_page usage integer_value s) = grabbed s
   \<and> hids (value_callback T device usage_page usage integer_value s) = hids s
   \<and> value_callback T device usage_page usage integer_value s =
       s\<lparr>event_manipulator_ref :=
           event_manipulator_ref (value_callback T device usage_page usage integer_value s)\<rparr>
   \<and> ready (event_manipulator_ref (value_callback T device usage_page usage integer_value s)) =
       ready (event_manipulator_ref s)"
  by (simp add: value_callback_def handle_keyboard_event_def Let_def distinct_pages_def)

theorem value_callback_routing_witness:
  "\<not> grabbed two_devices
   \<and> value_callback system_usage_tables (make_human_interface_device keyboard_properties)
        7 4 1 two_devices = two_devices
   \<and> grabbed two_devices_grabbed
   \<and> distinct_pages system_usage_tables
   \<and> handled_keyboard_events (event_manipulator_ref
        (value_callback system_usage_tables (make_human_interface_device keyboard_properties)
           7 4 1 two_devices_grabbed)) = [(4294969000, 4, True)]
   \<and> handled_keyboard_events (event_manipulator_ref
        (value_callback system_usage_tables (make_human_interface_device keyboard_properties)
           7 4 0 two_devices_grabbed)) = [(4294969000, 4, False)]
   \<and> handled_keyboard_events (event_manipulator_ref
        (value_callback system_usage_tables (make_human_interface_device keyboard_properties)
           255 3 1 two_devices_grabbed)) = [(4294969000, 4097, True)]
   \<and> value_callback system_usage_tables (make_human_interface_device keyboard_properties)
        7 3 1 two_devices_grabbed = two_devices_grabbed
   \<and> value_callback system_usage_tables (make_human_interface_device keyboard_properties)
        12 4 1 two_devices_grabbed = two_devices_grabbed"
proof -
  let ?T = system_usage_tables
  let ?d = "make_human_interface_device keyboard_properties"
  have g0: "\<not> grabbed two_devices" by code_simp
  have g1: "grabbed two_devices_grabbed" by code_simp
  have e: "handled_keyboard_events (event_manipulator_ref two_devices_grabbed) = []"
    by code_simp
  have T: "kHIDPage_KeyboardOrKeypad ?T = 7" "kHIDUsage_KeyboardErrorUndefined ?T = 3"
    "kHIDUsage_Keyboard_Reserved ?T = 65535" "kHIDPage_AppleVendorTopCase ?T = 255"
    "kHIDUsage_AV_TopCase_KeyboardFn ?T = 3" "vk_fn_modifier ?T = 4097"
    by (simp_all add: system_usage_tables_def)
  have d: "get_registry_entry_id ?d = 4294969000"
    by (simp add: get_registry_entry_id_def make_human_interface_device_def
        keyboard_properties_def)
  show ?thesis
    using g0 g1 e
      value_callback_routing [of two_devices ?T ?d 7 4 1]
      value_callback_routing [of two_devices_grabbed ?T ?d 7 4 1]
      value_callback_routing [of two_devices_grabbed ?T ?d 7 4 0]
      value_callback_routing [of two_devices_grabbed ?T ?d 255 3 1]
      value_callback_routing [of two_devices_grabbed ?T ?d 7 3 1]
      value_callback_routing [of two_devices_grabbed ?T ?d 12 4 1]
    by (simp add: T d distinct_pages_def)
qed

text \<open>
  C6. In every reachable state at most one timer source is alive, and it is the one the
  grabber holds. \<^verbatim>\<open>grab_devices\<close> cancels the source of an earlier call before it
  creates the new one and resets the retry count, so after it exactly the new source is
  alive; after two calls in a row only the source of the second call is alive.
\<close>

theorem at_most_one_grab_timer:
  assumes "reachable s"
  shows "map fst (dispatch_sources s) = (case grab_timer s of None \<Rightarrow> [] | Some t \<Rightarrow> [t])
       \<and> length (dispatch_sources s) \<le> 1
       \<and> grab_timer (grab_devices now s) = Some (next_dispatch_source s)
       \<and> dispatch_sources (grab_devices now s) = [(next_dispatch_source s, now - 1)]
       \<and> (\<forall>t. grab_timer s = Some t \<longrightarrow>
            t \<noteq> next_dispatch_source s
            \<and> map_of (dispatch_sources (grab_devices now s)) t = None)
       \<and> grab_retry_count (grab_devices now s) = 0
       \<and> grab_timer (grab_devices now' (grab_devices now s)) =
            Some (Suc (next_dispatch_source s))
       \<and> dispatch_sources (grab_devices now' (grab_devices now s)) =
            [(Suc (next_dispatch_source s), now' - 1)]
       \<and> map_of (dispatch_sources (grab_devices now' (grab_devices now s)))
            (next_dispatch_source s) = None"
proof -
  have inv: "timer_invariant s"
    using assms by (simp add: reachable_invariants)
  have inv': "timer_invariant (grab_devices now s)"
    using inv by (rule timer_invariant_grab_devices)
  have one: "map fst (dispatch_sources s) = (case grab_timer s of None \<Rightarrow> [] | Some t \<Rightarrow> [t])"
    using inv by (simp add: timer_invariant_def)
  have len: "length (dispatch_sources s) \<le> 1"
    using arg_cong [OF one, of length] by (simp split: option.splits)
  have fresh: "\<forall>t. grab_timer s = Some t \<longrightarrow> t \<noteq> next_dispatch_source s"
    using inv by (auto simp add: timer_invariant_def)
  show ?thesis
    using one len fresh
    by (simp add: grab_devices_timer [OF inv] grab_devices_timer [OF inv'])
qed

theorem at_most_one_grab_timer_witness:
  "reachable one_keyboard
   \<and> dispatch_sources one_keyboard = []
   \<and> dispatch_sources (grab_devices 100 one_keyboard) = [(0, 99)]
   \<and> dispatch_sources (grab_devices 101 (grab_devices 100 one_keyboard)) = [(1, 100)]
   \<and> grab_timer (grab_devices 101 (grab_devices 100 one_keyboard)) = Some 1"
  using reachable_one_keyboard
    at_most_one_grab_timer [OF reachable_one_keyboard, of 100 101]
  by (simp add: one_keyboard_simps)

text \<open>
  C7. \<^verbatim>\<open>ungrab_devices\<close> while the Grabbed Flag is false is a no-op: the state is left
  as it is, so no call is made on a device handle, the modifier flag tracker, the
  caps-lock facility and the session client are not touched, no timer is cancelled and
  nothing is logged; calling it again changes nothing either.
\<close>

theorem ungrab_devices_when_ungrabbed:
  assumes "\<not> grabbed s"
  shows "ungrab_devices s = s
       \<and> ungrab_devices (ungrab_devices s) = ungrab_devices s
       \<and> map (\<lambda>it. calls (snd it)) (hids (ungrab_devices s)) = map (\<lambda>it. calls (snd it)) (hids s)
       \<and> modifier_flag_manager_member (ungrab_devices s) = modifier_flag_manager_member s
       \<and> hid_system_client_member (ungrab_devices s) = hid_system_client_member s
       \<and> console_user_client_member (ungrab_devices s) = console_user_client_member s
       \<and> grab_timer (ungrab_devices s) = grab_timer s
       \<and> dispatch_sources (ungrab_devices s) = dispatch_sources s
       \<and> logger (ungrab_devices s) = logger s"
  using assms by (simp add: ungrab_devices_def)

theorem ungrab_devices_when_ungrabbed_witness:
  "\<not> grabbed one_keyboard \<and> ungrab_devices one_keyboard = one_keyboard"
  using ungrab_devices_when_ungrabbed [of one_keyboard]
  by (simp add: one_keyboard_simps)

text \<open>
  C8. The removal callback for a device reference that is no key of the registry leaves
  the state as it is: the registry keeps every handle, nothing is logged and nothing
  fails, whatever result the operating system reports. For a reference that is a key of
  the registry of a reachable state, the entry is looked up, the removal is logged with
  the vendor, product and location of the device, and the entry is erased; the other
  entries stay.
\<close>

theorem device_removal_unknown_identity:
  "(map_of (hids s) device = None \<longrightarrow>
      device_removal_callback device s = s
      \<and> static_device_removal_callback (Some s) result device = Some s)
   \<and> (reachable s \<and> map_of (hids s) device = Some dev \<longrightarrow>
      device_removal_callback device s =
        s\<lparr>logger := logger s @
             [log_removal_device (value_or (get_vendor_id dev) 0)
                (value_or (get_product_id dev) 0) (value_or (get_location_id dev) 0)],
          hids := AList.delete device (hids s)\<rparr>
      \<and> static_device_removal_callback (Some s) kIOReturnSuccess device =
          Some (device_removal_callback device s)
      \<and> map_of (hids (device_removal_callback device s)) device = None
      \<and> (\<forall>other. other \<noteq> device \<longrightarrow>
            map_of (hids (device_removal_callback device s)) other = map_of (hids s) other))"
proof (rule conjI; rule impI)
  assume "map_of (hids s) device = None"
  then show "device_removal_callback device s = s
      \<and> static_device_removal_callback (Some s) result device = Some s"
    by (simp add: device_removal_callback_def static_device_removal_callback_def)
next
  assume a: "reachable s \<and> map_of (hids s) device = Some dev"
  then have "map_of (hids s) null_device = None"
    using reachable_invariants [of s] by (simp add: registry_invariant_def)
  with a have "device \<noteq> null_device" by auto
  with a show "device_removal_callback device s =
        s\<lparr>logger := logger s @
             [log_removal_device (value_or (get_vendor_id dev) 0)
                (value_or (get_product_id dev) 0) (value_or (get_location_id dev) 0)],
          hids := AList.delete device (hids s)\<rparr>
      \<and> static_device_removal_callback (Some s) kIOReturnSuccess device =
          Some (device_removal_callback device s)
      \<and> map_of (hids (device_removal_callback device s)) device = None
      \<and> (\<forall>other. other \<noteq> device \<longrightarrow>
            map_of (hids (device_removal_callback device s)) other = map_of (hids s) other)"
    by (simp add: device_removal_callback_def static_device_removal_callback_def Let_def
        delete_conv')
qed

theorem device_removal_unknown_identity_witness:
  "map_of (hids one_keyboard) 7 = None
   \<and> device_removal_callback 7 one_keyboard = one_keyboard
   \<and> reachable one_keyboard
   \<and> map_of (hids one_keyboard) 1 =
       Some (hid_observe empty_callback (make_human_interface_device keyboard_properties))
   \<and> hids (device_removal_callback 1 one_keyboard) = []
   \<and> logger (device_removal_callback 1 one_keyboard) =
       logger one_keyboard @ [log_removal_device 1452 610 0]"
  using reachable_one_keyboard
    device_removal_unknown_identity [where s = one_keyboard and device = 7]
    device_removal_unknown_identity [where s = one_keyboard and device = 1
      and dev = "hid_observe empty_callback (make_human_interface_device keyboard_properties)"]
  by (simp add: one_keyboard_simps value_or_def get_vendor_id_def
      get_product_id_def get_location_id_def hid_observe_def make_human_interface_device_def
      keyboard_properties_def)

text \<open>
  C9. When \<^verbatim>\<open>grab\<close> synchronises the caps-lock LED of a device, the LED is set to on
  only when the query of the system's caps-lock state returns a value and that value is
  true; when the query returns false, and when it returns no value, the LED is set to
  off. The LED update is the last call \<^verbatim>\<open>grab\<close> makes on the handle.
\<close>

theorem grab_caps_lock_led:
  assumes "\<not> self_originated hid"
  shows "(caps_lock_led (grab s hid) = Some led_state_on \<longleftrightarrow>
            get_caps_lock_state (hid_system_client_member s) = Some True)
       \<and> (get_caps_lock_state (hid_system_client_member s) = Some False
            \<longrightarrow> caps_lock_led (grab s hid) = Some led_state_off)
       \<and> (get_caps_lock_state (hid_system_client_member s) = None
            \<longrightarrow> caps_lock_led (grab s hid) = Some led_state_off)
       \<and> last (calls (grab s hid)) =
            call_set_caps_lock_led_state
              (if get_caps_lock_state (hid_system_client_member s) = Some True
               then led_state_on else led_state_off)"
  using assms by (simp add: grab_ordinary hid_set_caps_lock_led_state_def)

theorem grab_caps_lock_led_witness:
  "\<not> self_originated (make_human_interface_device keyboard_properties)
   \<and> get_caps_lock_state (hid_system_client_member (fresh_grabber\<lparr>hid_system_client_member := caps_lock_unreadable\<rparr>)) = None
   \<and> caps_lock_led (grab (fresh_grabber\<lparr>hid_system_client_member := caps_lock_unreadable\<rparr>)
        (make_human_interface_device keyboard_properties)) = Some led_state_off"
  using grab_caps_lock_led [of "make_human_interface_device keyboard_properties"
      "fresh_grabber\<lparr>hid_system_client_member := caps_lock_unreadable\<rparr>"]
  by (simp add: self_originated_def get_manufacturer_def make_human_interface_device_def
      keyboard_properties_def get_caps_lock_state_def caps_lock_unreadable_def)

text \<open>
  C10. When a tick of the grab timer sets the Grabbed Flag, and when \<^verbatim>\<open>ungrab_devices\<close>
  runs while the flag is true, the buffered changed keys and pressed keys are cleared on
  every device of the registry: on a self-originated device the two clearing calls are
  made although \<^verbatim>\<open>grab\<close> and \<^verbatim>\<open>ungrab\<close> skip the device.
\<close>

theorem clearing_covers_every_device:
  "(\<not> grabbed s \<and> grabbed (grab_timer_event_handler t now s) \<longrightarrow>
      (\<forall>it \<in> set (hids (grab_timer_event_handler t now s)).
         pressed_keys (snd it) = [] \<and> changed_keys (snd it) = [])
      \<and> (\<forall>i < length (hids s). self_originated (snd (hids s ! i)) \<longrightarrow>
            snd (hids (grab_timer_event_handler t now s) ! i) =
              (snd (hids s ! i))
                \<lparr>pressed_keys := [], changed_keys := [],
                 calls := calls (snd (hids s ! i)) @
                   [call_clear_changed_keys, call_clear_pressed_keys]\<rparr>))
   \<and> (grabbed s \<longrightarrow>
      (\<forall>it \<in> set (hids (ungrab_devices s)).
         pressed_keys (snd it) = [] \<and> changed_keys (snd it) = [])
      \<and> (\<forall>i < length (hids s). self_originated (snd (hids s ! i)) \<longrightarrow>
            snd (hids (ungrab_devices s) ! i) =
              (snd (hids s ! i))
                \<lparr>pressed_keys := [], changed_keys := [],
                 calls := calls (snd (hids s ! i)) @
                   [call_clear_changed_keys, call_clear_pressed_keys]\<rparr>))"
proof (intro conjI impI)
  assume a: "\<not> grabbed s \<and> grabbed (grab_timer_event_handler t now s)"
  then have eq: "grab_timer_event_handler t now s = grab_completion s"
    by (simp add: tick_flips_only_by_completion)
  show "\<forall>it \<in> set (hids (grab_timer_event_handler t now s)).
      pressed_keys (snd it) = [] \<and> changed_keys (snd it) = []"
    unfolding eq
    by (auto simp add: grab_completion_simps clear_pressed_keys_def clear_changed_keys_def)
  show "\<forall>i < length (hids s). self_originated (snd (hids s ! i)) \<longrightarrow>
      snd (hids (grab_timer_event_handler t now s) ! i) =
        (snd (hids s ! i))
          \<lparr>pressed_keys := [], changed_keys := [],
           calls := calls (snd (hids s ! i)) @
             [call_clear_changed_keys, call_clear_pressed_keys]\<rparr>"
    unfolding eq by (simp add: grab_completion_simps skipped_device_after_completion)
next
  assume g: "grabbed s"
  show "\<forall>it \<in> set (hids (ungrab_devices s)).
      pressed_keys (snd it) = [] \<and> changed_keys (snd it) = []"
    using g
    by (auto simp add: ungrab_devices_simps clear_pressed_keys_def clear_changed_keys_def)
  show "\<forall>i < length (hids s). self_originated (snd (hids s ! i)) \<longrightarrow>
      snd (hids (ungrab_devices s) ! i) =
        (snd (hids s ! i))
          \<lparr>pressed_keys := [], changed_keys := [],
           calls := calls (snd (hids s ! i)) @
             [call_clear_changed_keys, call_clear_pressed_keys]\<rparr>"
    using g by (simp add: ungrab_devices_simps skipped_device_after_ungrab)
qed

theorem clearing_covers_every_device_witness:
  "\<not> grabbed (grab_devices 100 two_devices)
   \<and> grabbed (grab_timer_event_handler 0 100 (grab_devices 100 two_devices))
   \<and> self_originated (snd (hids (grab_devices 100 two_devices) ! 1))
   \<and> calls (snd (hids (grab_timer_event_handler 0 100 (grab_devices 100 two_devices)) ! 1)) =
        [call_observe empty_callback, call_clear_changed_keys, call_clear_pressed_keys]
   \<and> grabbed two_devices_grabbed
   \<and> self_originated (snd (hids two_devices_grabbed ! 1))
   \<and> calls (snd (hids (ungrab_devices two_devices_grabbed) ! 1)) =
        [call_observe empty_callback, call_clear_changed_keys, call_clear_pressed_keys,
         call_clear_changed_keys, call_clear_pressed_keys]"
proof -
  let ?a = "grab_devices 100 two_devices"
  have h1: "\<not> grabbed ?a" by code_simp
  have h2: "grabbed (grab_timer_event_handler 0 100 ?a)" by code_simp
  have h3: "grabbed two_devices_grabbed" by code_simp
  have l1: "length (hids ?a) = 2" by code_simp
  have l2: "length (hids two_devices_grabbed) = 2" by code_simp
  have s1: "self_originated (snd (hids ?a ! 1))" by code_simp
  have s2: "self_originated (snd (hids two_devices_grabbed ! 1))" by code_simp
  have c1: "calls (snd (hids ?a ! 1)) = [call_observe empty_callback]" by code_simp
  have c2: "calls (snd (hids two_devices_grabbed ! 1)) =
      [call_observe empty_callback, call_clear_changed_keys, call_clear_pressed_keys]"
    by code_simp
  show ?thesis
    using h1 h2 h3 l1 l2 s1 s2 c1 c2
      clearing_covers_every_device [of ?a 0 100]
      clearing_covers_every_device [of two_devices_grabbed 0 100]
    by simp
qed

end
